theory Spec2Isabelle
  imports Complex_Main
begin

section \<open>The telemetry logger of Alpha-Rocket.py\<close>

text \<open>
  The program reads an MPU6050 (acceleration, angular rate) and a BMP180 (pressure),
  derives a relative altitude, a complementary-filtered roll and pitch and the
  acceleration magnitude, and appends one CSV row per loop iteration to a log file.

  Python floats are modelled as the real numbers they approximate: every float
  operation is the exact operation on \<^typ>\<open>real\<close>. Rounding, overflow, NaN and
  infinities are therefore outside the model. Everything that raises in Python is a branch
  that returns \<open>Inl\<close> with the error.

  One float that is no real number is kept: the negative zero. \<open>math.atan2\<close> is the
  operation of this program whose value depends on the sign of a zero, and its arguments
  come from the accelerometer. The accelerometer components are therefore values of the
  type \<open>float\<close> below, a real number or the negative zero. Every computed value is a real
  number: a computed zero has no sign.
\<close>

subsection \<open>Float operations of the Python runtime\<close>

datatype error =
    ZeroDivisionError
  | ValueError
  | ComplexResult
    \<comment> \<open>a negative float raised to a non-integer power: the result is not a float
       (a complex number where the runtime has them, an exception where it has not)\<close>

definition py_div :: "real \<Rightarrow> real \<Rightarrow> error + real" where
  "py_div x y = (if y = 0 then Inl ZeroDivisionError else Inr (x / y))"

definition py_pow :: "real \<Rightarrow> real \<Rightarrow> error + real" where
  "py_pow x y =
     (if x = 0 \<and> y < 0 then Inl ZeroDivisionError
      else if x < 0 \<and> real_of_int \<lfloor>y\<rfloor> \<noteq> y then Inl ComplexResult
      else if y = 0 then Inr 1
      else if x < 0 then Inr (x powi \<lfloor>y\<rfloor>)
      else Inr (x powr y))"

definition py_sqrt :: "real \<Rightarrow> error + real" where
  "py_sqrt x = (if x < 0 then Inl ValueError else Inr (sqrt x))"

text \<open>
  A float read from a sensor: \<open>Fl r\<close> is the real number \<open>r\<close>, with \<open>Fl 0\<close> the
  positive zero \<open>0.0\<close>, and \<open>NegZero\<close> is \<open>-0.0\<close>. Both zeros have the value 0 and
  compare equal to 0 in Python.
\<close>

datatype float = Fl real | NegZero

fun val :: "float \<Rightarrow> real" where
  "val (Fl r) = r"
| "val NegZero = 0"

text \<open>The unary minus of a float: it flips the sign, also of a zero.\<close>

fun neg :: "float \<Rightarrow> float" where
  "neg (Fl r) = (if r = 0 then NegZero else Fl (- r))"
| "neg NegZero = Fl 0"

text \<open>
  \<open>math.atan2(y, x)\<close>, the angle of the point \<open>(x, y)\<close> in radians. On the negative
  \<open>x\<close> axis the sign of the zero \<open>y\<close> chooses between \<open>pi\<close> and \<open>-pi\<close>; at the origin
  the sign of the zero \<open>x\<close> chooses between 0 and \<open>pi\<close> or \<open>-pi\<close>.
\<close>

definition atan2 :: "float \<Rightarrow> float \<Rightarrow> real" where
  "atan2 y x =
     (if 0 < val x then arctan (val y / val x)
      else if val x < 0 then
        (if val y < 0 \<or> y = NegZero then arctan (val y / val x) - pi
         else arctan (val y / val x) + pi)
      else if 0 < val y then pi / 2
      else if val y < 0 then - (pi / 2)
      else if x = NegZero then (if y = NegZero then - pi else pi)
      else 0)"

definition degrees :: "real \<Rightarrow> real" where
  "degrees x = x * (180 / pi)"

subsection \<open>Fixed-point formatting: the format specification \<open>.Nf\<close>\<close>

text \<open>
  \<open>format(x, '.Nf')\<close> prints the decimal number with \<open>N\<close> fraction digits nearest to
  \<open>x\<close>, a tie going to the even last digit, with a minus sign for a negative \<open>x\<close>.
  Python also prints the sign of a negative zero; the values formatted here are computed
  values, hence real numbers, and a zero prints without sign.
\<close>

definition round_half_even :: "real \<Rightarrow> int" where
  "round_half_even x =
     (let f = \<lfloor>x\<rfloor>; d = x - real_of_int f
      in if d < 1 / 2 then f
         else if 1 / 2 < d then f + 1
         else if even f then f else f + 1)"

definition digit :: "nat \<Rightarrow> char" where
  "digit n = ''0123456789'' ! (n mod 10)"

function dec :: "nat \<Rightarrow> string" where
  "dec n = (if n < 10 then [digit n] else dec (n div 10) @ [digit n])"
  by pat_completeness auto
termination
  by (relation "measure id") auto

declare dec.simps [simp del]

fun frac_digits :: "nat \<Rightarrow> nat \<Rightarrow> string" where
  "frac_digits 0 m = []"
| "frac_digits (Suc d) m = frac_digits d (m div 10) @ [digit m]"

definition fmt_f :: "nat \<Rightarrow> real \<Rightarrow> string" where
  "fmt_f d x =
     (let q = nat (round_half_even (\<bar>x\<bar> * 10 ^ d))
      in (if x < 0 then ''-'' else '''')
         @ dec (q div 10 ^ d)
         @ (if d = 0 then '''' else ''.'' @ frac_digits d (q mod 10 ^ d)))"

subsection \<open>Helpers of the source\<close>

text \<open>
  \<^verbatim>\<open>
  def accel_angles_deg(ax, ay, az):
      roll = math.degrees(math.atan2(ay, az))
      pitch = math.degrees(math.atan2(-ax, math.sqrt(ay*ay + az*az)))
      return roll, pitch
  \<close>
  A product of a float with itself, a sum of two such products and the square root of the
  sum are never the negative zero, so the second argument of the second \<open>atan2\<close> is a
  real number.
\<close>

definition accel_angles_deg :: "float \<Rightarrow> float \<Rightarrow> float \<Rightarrow> error + real \<times> real" where
  "accel_angles_deg ax ay az =
     (let r = degrees (atan2 ay az)
      in case py_sqrt (val ay * val ay + val az * val az) of
           Inl e \<Rightarrow> Inl e
         | Inr h \<Rightarrow> Inr (r, degrees (atan2 (neg ax) (Fl h))))"

subsection \<open>Program state, inputs and effects\<close>

record state =
  p0 :: real
  roll :: real
  pitch :: real
  last_t :: real
  last_status :: real
  line_count :: int

text \<open>What one pass of the loop reads: the clock and the two sensors.\<close>

record reading =
  now :: real
  acceleration :: "float \<times> float \<times> float"
  gyro :: "real \<times> real \<times> real"
  pressure :: real

text \<open>What the program does to the outside: writes to the log file, flushes it, prints.\<close>

datatype event = Write string | Flush | Print string

definition flush_every :: int where
  "flush_every = 25"

definition alpha :: real where
  "alpha = 0.98"

definition header :: string where
  "header = ''alt_m,accel_g,roll_deg,pitch_deg'' @ [CHR 0x0A]"

subsection \<open>Start-up\<close>

text \<open>
  \<^verbatim>\<open>
  p0 = bmp.pressure
  roll, pitch = accel_angles_deg(*mpu.acceleration)
  last_t = time.monotonic()
  last_status = last_t
  ...
  with open(csv_path, "w") as f:
      f.write("alt_m,accel_g,roll_deg,pitch_deg\n")
  flush_every = 25
  line_count = 0
  print("Logging to:", csv_path)
  \<close>
  The arguments are the first pressure reading, the first acceleration reading, the
  clock and the path that \<open>next_csv\<close> returned.
\<close>

definition startup ::
  "real \<Rightarrow> float \<times> float \<times> float \<Rightarrow> real \<Rightarrow> string \<Rightarrow> error + state \<times> event list" where
  "startup pressure0 acc0 t0 csv_path =
     (case acc0 of (ax, ay, az) \<Rightarrow>
        (case accel_angles_deg ax ay az of
           Inl e \<Rightarrow> Inl e
         | Inr (r, pt) \<Rightarrow>
             Inr (\<lparr>p0 = pressure0, roll = r, pitch = pt, last_t = t0, last_status = t0,
                   line_count = 0\<rparr>,
                  [Write header, Print (''Logging to: '' @ csv_path)])))"

subsection \<open>The loop body\<close>

text \<open>\<^verbatim>\<open>alt_m = 44330.0 * (1.0 - pow(p / p0, 1.0 / 5.255))\<close>\<close>

definition alt_m :: "real \<Rightarrow> real \<Rightarrow> error + real" where
  "alt_m p p0' =
     (case py_div p p0' of
        Inl e \<Rightarrow> Inl e
      | Inr ratio \<Rightarrow>
          (case py_pow ratio (1 / 5.255) of
             Inl e \<Rightarrow> Inl e
           | Inr w \<Rightarrow> Inr (44330 * (1 - w))))"

text \<open>
  \<^verbatim>\<open>
  roll_acc, pitch_acc = accel_angles_deg(ax, ay, az)
  alpha = 0.98
  roll  = alpha * (roll  + gx * dt) + (1 - alpha) * roll_acc
  pitch = alpha * (pitch + gy * dt) + (1 - alpha) * pitch_acc
  \<close>
\<close>

definition complementary_filter ::
  "real \<times> real \<Rightarrow> float \<times> float \<times> float \<Rightarrow> real \<times> real \<times> real \<Rightarrow> real \<Rightarrow> error + real \<times> real" where
  "complementary_filter prev acc gyr dt =
     (case (prev, acc, gyr) of ((prev_roll, prev_pitch), (ax, ay, az), (gx, gy, gz)) \<Rightarrow>
        (case accel_angles_deg ax ay az of
           Inl e \<Rightarrow> Inl e
         | Inr (roll_acc, pitch_acc) \<Rightarrow>
             Inr (alpha * (prev_roll + gx * dt) + (1 - alpha) * roll_acc,
                  alpha * (prev_pitch + gy * dt) + (1 - alpha) * pitch_acc)))"

text \<open>\<^verbatim>\<open>accel_g = math.sqrt(ax*ax + ay*ay + az*az) / 9.80665\<close>\<close>

definition accel_g :: "float \<times> float \<times> float \<Rightarrow> error + real" where
  "accel_g acc =
     (case acc of (ax, ay, az) \<Rightarrow>
        (case py_sqrt (val ax * val ax + val ay * val ay + val az * val az) of
           Inl e \<Rightarrow> Inl e
         | Inr m \<Rightarrow> Inr (m / 9.80665)))"

text \<open>\<^verbatim>\<open>f"{alt_m:.2f},{accel_g:.3f},{roll:.2f},{pitch:.2f}\n"\<close>\<close>

definition csv_row :: "real \<Rightarrow> real \<Rightarrow> real \<Rightarrow> real \<Rightarrow> string" where
  "csv_row a g r pt =
     fmt_f 2 a @ '','' @ fmt_f 3 g @ '','' @ fmt_f 2 r @ '','' @ fmt_f 2 pt @ [CHR 0x0A]"

text \<open>
  \<^verbatim>\<open>f"alt={alt_m:.2f} m, a={accel_g:.3f} g, roll={roll:.1f}D, pitch={pitch:.1f}D"\<close>
  where \<open>D\<close> stands for the degree sign of the source, kept here as its two UTF-8 bytes.
\<close>

definition status_line :: "real \<Rightarrow> real \<Rightarrow> real \<Rightarrow> real \<Rightarrow> string" where
  "status_line a g r pt =
     ''alt='' @ fmt_f 2 a @ '' m, a='' @ fmt_f 3 g @ '' g, roll='' @ fmt_f 1 r
     @ [CHR 0xC2, CHR 0xB0] @ '', pitch='' @ fmt_f 1 pt @ [CHR 0xC2, CHR 0xB0]"

text \<open>
  One pass of \<open>while True:\<close>. It returns the new values of the program's variables and
  the effects of the pass in the order they happen. \<open>time.sleep(0.05)\<close> changes nothing
  the model holds: the clock is an input.
\<close>

definition loop_body :: "state \<Rightarrow> reading \<Rightarrow> error + state \<times> event list" where
  "loop_body s rd =
     (let dt = now rd - last_t s
      in case alt_m (pressure rd) (p0 s) of
           Inl e \<Rightarrow> Inl e
         | Inr a \<Rightarrow>
        (case complementary_filter (roll s, pitch s) (acceleration rd) (gyro rd) dt of
           Inl e \<Rightarrow> Inl e
         | Inr (roll', pitch') \<Rightarrow>
        (case accel_g (acceleration rd) of
           Inl e \<Rightarrow> Inl e
         | Inr g \<Rightarrow>
            (let n = line_count s + 1;
                 wr = [Write (csv_row a g roll' pitch')];
                 fl = (if n mod flush_every = 0 then [Flush] else []);
                 due = (1 \<le> now rd - last_status s);
                 pr = (if due then [Print (status_line a g roll' pitch')] else [])
             in Inr (s\<lparr>roll := roll', pitch := pitch', last_t := now rd,
                       last_status := (if due then now rd else last_status s),
                       line_count := n\<rparr>,
                     wr @ fl @ pr)))))"

text \<open>The first \<open>length rds\<close> passes of the loop, stopping at the first error.\<close>

fun run :: "state \<Rightarrow> reading list \<Rightarrow> error + state \<times> event list" where
  "run s [] = Inr (s, [])"
| "run s (rd # rds) =
     (case loop_body s rd of
        Inl e \<Rightarrow> Inl e
      | Inr (s', ev) \<Rightarrow>
          (case run s' rds of
             Inl e \<Rightarrow> Inl e
           | Inr (s'', evs) \<Rightarrow> Inr (s'', ev @ evs)))"

text \<open>The program from the baselines on: start-up, then the loop.\<close>

definition logger ::
  "real \<Rightarrow> float \<times> float \<times> float \<Rightarrow> real \<Rightarrow> string \<Rightarrow> reading list \<Rightarrow> error + state \<times> event list" where
  "logger pressure0 acc0 t0 csv_path rds =
     (case startup pressure0 acc0 t0 csv_path of
        Inl e \<Rightarrow> Inl e
      | Inr (s, ev0) \<Rightarrow>
          (case run s rds of
             Inl e \<Rightarrow> Inl e
           | Inr (s', evs) \<Rightarrow> Inr (s', ev0 @ evs)))"

subsection \<open>What can be observed of a run\<close>

text \<open>The strings handed to \<open>f.write\<close>, in order: the lines of the log file.\<close>

fun written :: "event list \<Rightarrow> string list" where
  "written [] = []"
| "written (Write l # ev) = l # written ev"
| "written (Flush # ev) = written ev"
| "written (Print l # ev) = written ev"

text \<open>The operations on the log file, in order, without the console output.\<close>

fun file_ops :: "event list \<Rightarrow> event list" where
  "file_ops [] = []"
| "file_ops (Print l # ev) = file_ops ev"
| "file_ops (e # ev) = e # file_ops ev"

text \<open>One mark per file operation: \<open>True\<close> for a flush, \<open>False\<close> for a write.\<close>

definition flush_marks :: "event list \<Rightarrow> bool list" where
  "flush_marks ev = map (\<lambda>e. e = Flush) (file_ops ev)"

definition flush_count :: "event list \<Rightarrow> nat" where
  "flush_count ev = length (filter (\<lambda>e. e = Flush) ev)"

text \<open>
  What a pass leaves behind for the log: its file operations and the new values of
  \<open>roll\<close>, \<open>pitch\<close> and \<open>line_count\<close>, or the error.
\<close>

definition logged :: "error + state \<times> event list \<Rightarrow> error + event list \<times> real \<times> real \<times> int" where
  "logged res =
     (case res of
        Inl e \<Rightarrow> Inl e
      | Inr (s, ev) \<Rightarrow> Inr (file_ops ev, roll s, pitch s, line_count s))"

subsection \<open>The shape of a data line\<close>





subsection \<open>A level, resting payload\<close>

text \<open>
  The state after start-up at 1013.25 hPa and a reading of the payload lying level and
  still at that pressure, \<open>t\<close> seconds after start-up.
\<close>

definition level_state :: state where
  "level_state =
     \<lparr>p0 = 1013.25, roll = 0, pitch = 0, last_t = 0, last_status = 0, line_count = 0\<rparr>"

definition level_reading :: "real \<Rightarrow> reading" where
  "level_reading t =
     \<lparr>now = t, acceleration = (Fl 0, Fl 0, Fl 9.80665), gyro = (0, 0, 0),
      pressure = 1013.25\<rparr>"


section \<open>Arithmetic used below\<close>

lemma pow_ub_mul:
  fixes x :: real
  assumes "x ^ m \<le> u" "x ^ n \<le> v" and "k = m + n" "0 \<le> x" "u * v \<le> w"
  shows "x ^ k \<le> w"
proof -
  have "0 \<le> x ^ m" "0 \<le> x ^ n" using assms(4) by simp_all
  then have "x ^ m * x ^ n \<le> u * v"
    using assms(1,2) by (intro mult_mono) simp_all
  then show ?thesis using assms(3,5) by (simp add: power_add)
qed

lemma pow_lb_mul:
  fixes x :: real
  assumes "l \<le> x ^ m" "j \<le> x ^ n" and "k = m + n" "0 \<le> l" "0 \<le> j" "w \<le> l * j"
  shows "w \<le> x ^ k"
proof -
  have "l * j \<le> x ^ m * x ^ n"
    using assms(1,2,4,5) by (intro mult_mono) simp_all
  then show ?thesis using assms(3,6) by (simp add: power_add)
qed

lemma powr_rat_power:
  fixes x :: real
  assumes "0 < x" "0 < n"
  shows "(x powr (real m / real n)) ^ n = x ^ m"
proof -
  have "(x powr (real m / real n)) ^ n = x powr (real m / real n * real n)"
    using assms(1) by (simp add: powr_powr flip: powr_realpow)
  also have "\<dots> = x powr real m" using assms(2) by simp
  also have "\<dots> = x ^ m" using assms(1) by (simp add: powr_realpow)
  finally show ?thesis .
qed

lemma powr_rat_gt:
  fixes c x :: real
  assumes "0 \<le> c" "0 < x" "0 < n" "c ^ n < x ^ m"
  shows "c < x powr (real m / real n)"
proof (rule ccontr)
  assume "\<not> c < x powr (real m / real n)"
  then have le: "x powr (real m / real n) \<le> c" by simp
  have "(x powr (real m / real n)) ^ n \<le> c ^ n"
    by (rule power_mono [OF le]) simp
  then have "x ^ m \<le> c ^ n"
    by (simp add: powr_rat_power [OF assms(2,3)])
  with assms(4) show False by simp
qed

lemma powr_rat_lt:
  fixes c x :: real
  assumes "0 \<le> c" "0 < x" "0 < n" "x ^ m < c ^ n"
  shows "x powr (real m / real n) < c"
proof (rule ccontr)
  assume "\<not> x powr (real m / real n) < c"
  then have le: "c \<le> x powr (real m / real n)" by simp
  have "c ^ n \<le> (x powr (real m / real n)) ^ n"
    by (rule power_mono [OF le assms(1)])
  then have "c ^ n \<le> x ^ m"
    by (simp add: powr_rat_power [OF assms(2,3)])
  with assms(4) show False by simp
qed

text \<open>
  Powers of the pressure ratio \<open>900 / 1013.25 = 1200 / 1351\<close> against powers of two
  decimals, by repeated squaring with every intermediate bound rounded to twelve places.
\<close>

lemma ratio_power_bounds:
  shows "((1200::real) / 1351) ^ 47 < 0.97771 ^ 247"
    and "(0.97769::real) ^ 268 < (1200 / 1351) ^ 51"
proof -
  have ra1: "((1200::real) / 1351) ^ 1 \<le> 0.888230940045" by simp
  have ra2: "((1200::real) / 1351) ^ 2 \<le> 0.788954202854"
    by (rule pow_ub_mul [OF ra1 ra1]) simp_all
  have ra4: "((1200::real) / 1351) ^ 4 \<le> 0.622448734201"
    by (rule pow_ub_mul [OF ra2 ra2]) simp_all
  have ra8: "((1200::real) / 1351) ^ 8 \<le> 0.387442426709"
    by (rule pow_ub_mul [OF ra4 ra4]) simp_all
  have ra16: "((1200::real) / 1351) ^ 16 \<le> 0.150111634015"
    by (rule pow_ub_mul [OF ra8 ra8]) simp_all
  have ra32: "((1200::real) / 1351) ^ 32 \<le> 0.022533502667"
    by (rule pow_ub_mul [OF ra16 ra16]) simp_all
  have ra40: "((1200::real) / 1351) ^ 40 \<le> 0.008730434956"
    by (rule pow_ub_mul [OF ra32 ra8]) simp_all
  have ra44: "((1200::real) / 1351) ^ 44 \<le> 0.005434248188"
    by (rule pow_ub_mul [OF ra40 ra4]) simp_all
  have ra46: "((1200::real) / 1351) ^ 46 \<le> 0.004287372948"
    by (rule pow_ub_mul [OF ra44 ra2]) simp_all
  have ra47: "((1200::real) / 1351) ^ 47 \<le> 0.003808177304"
    by (rule pow_ub_mul [OF ra46 ra1]) simp_all
  have ca1: "0.97771 \<le> (0.97771::real) ^ 1" by simp
  have ca2: "0.9559168441 \<le> (0.97771::real) ^ 2"
    by (rule pow_lb_mul [OF ca1 ca1]) simp_all
  have ca4: "0.913777012834 \<le> (0.97771::real) ^ 4"
    by (rule pow_lb_mul [OF ca2 ca2]) simp_all
  have ca8: "0.834988429183 \<le> (0.97771::real) ^ 8"
    by (rule pow_lb_mul [OF ca4 ca4]) simp_all
  have ca16: "0.697205676869 \<le> (0.97771::real) ^ 16"
    by (rule pow_lb_mul [OF ca8 ca8]) simp_all
  have ca32: "0.486095755858 \<le> (0.97771::real) ^ 32"
    by (rule pow_lb_mul [OF ca16 ca16]) simp_all
  have ca64: "0.236289083863 \<le> (0.97771::real) ^ 64"
    by (rule pow_lb_mul [OF ca32 ca32]) simp_all
  have ca128: "0.055832531152 \<le> (0.97771::real) ^ 128"
    by (rule pow_lb_mul [OF ca64 ca64]) simp_all
  have ca192: "0.013192617635 \<le> (0.97771::real) ^ 192"
    by (rule pow_lb_mul [OF ca128 ca64]) simp_all
  have ca224: "0.006412875441 \<le> (0.97771::real) ^ 224"
    by (rule pow_lb_mul [OF ca192 ca32]) simp_all
  have ca240: "0.004471093162 \<le> (0.97771::real) ^ 240"
    by (rule pow_lb_mul [OF ca224 ca16]) simp_all
  have ca244: "0.004085582153 \<le> (0.97771::real) ^ 244"
    by (rule pow_lb_mul [OF ca240 ca4]) simp_all
  have ca246: "0.003905476798 \<le> (0.97771::real) ^ 246"
    by (rule pow_lb_mul [OF ca244 ca2]) simp_all
  have ca247: "0.00381842372 \<le> (0.97771::real) ^ 247"
    by (rule pow_lb_mul [OF ca246 ca1]) simp_all
  have cb1: "(0.97769::real) ^ 1 \<le> 0.97769" by simp
  have cb2: "(0.97769::real) ^ 2 \<le> 0.9558777361"
    by (rule pow_ub_mul [OF cb1 cb1]) simp_all
  have cb4: "(0.97769::real) ^ 4 \<le> 0.913702246372"
    by (rule pow_ub_mul [OF cb2 cb2]) simp_all
  have cb8: "(0.97769::real) ^ 8 \<le> 0.834851795026"
    by (rule pow_ub_mul [OF cb4 cb4]) simp_all
  have cb16: "(0.97769::real) ^ 16 \<le> 0.696977519659"
    by (rule pow_ub_mul [OF cb8 cb8]) simp_all
  have cb32: "(0.97769::real) ^ 32 \<le> 0.485777662911"
    by (rule pow_ub_mul [OF cb16 cb16]) simp_all
  have cb64: "(0.97769::real) ^ 64 \<le> 0.235979937784"
    by (rule pow_ub_mul [OF cb32 cb32]) simp_all
  have cb128: "(0.97769::real) ^ 128 \<le> 0.055686531037"
    by (rule pow_ub_mul [OF cb64 cb64]) simp_all
  have cb256: "(0.97769::real) ^ 256 \<le> 0.003100989739"
    by (rule pow_ub_mul [OF cb128 cb128]) simp_all
  have cb264: "(0.97769::real) ^ 264 \<le> 0.00258886685"
    by (rule pow_ub_mul [OF cb256 cb8]) simp_all
  have cb268: "(0.97769::real) ^ 268 \<le> 0.002365453457"
    by (rule pow_ub_mul [OF cb264 cb4]) simp_all
  have rb1: "0.888230940044 \<le> ((1200::real) / 1351) ^ 1" by simp
  have rb2: "0.788954202851 \<le> ((1200::real) / 1351) ^ 2"
    by (rule pow_lb_mul [OF rb1 rb1]) simp_all
  have rb4: "0.622448734196 \<le> ((1200::real) / 1351) ^ 4"
    by (rule pow_lb_mul [OF rb2 rb2]) simp_all
  have rb8: "0.387442426702 \<le> ((1200::real) / 1351) ^ 8"
    by (rule pow_lb_mul [OF rb4 rb4]) simp_all
  have rb16: "0.150111634008 \<le> ((1200::real) / 1351) ^ 16"
    by (rule pow_lb_mul [OF rb8 rb8]) simp_all
  have rb32: "0.022533502664 \<le> ((1200::real) / 1351) ^ 32"
    by (rule pow_lb_mul [OF rb16 rb16]) simp_all
  have rb48: "0.003382540904 \<le> ((1200::real) / 1351) ^ 48"
    by (rule pow_lb_mul [OF rb32 rb16]) simp_all
  have rb50: "0.002668669862 \<le> ((1200::real) / 1351) ^ 50"
    by (rule pow_lb_mul [OF rb48 rb2]) simp_all
  have rb51: "0.00237039514 \<le> ((1200::real) / 1351) ^ 51"
    by (rule pow_lb_mul [OF rb50 rb1]) simp_all
  show "((1200::real) / 1351) ^ 47 < 0.97771 ^ 247"
    using ra47 ca247 by simp
  show "(0.97769::real) ^ 268 < (1200 / 1351) ^ 51"
    using cb268 rb51 by simp
qed

lemma ratio_powr_bounds:
  "0.97769 < ((900::real) / 1013.25) powr (1 / 5.255)"
  "((900::real) / 1013.25) powr (1 / 5.255) < 0.97771"
proof -
  let ?r = "(1200::real) / 1351"
  have r: "(900::real) / 1013.25 = ?r" by simp
  have "0.97769 < ?r powr (real 51 / real 268)"
    by (rule powr_rat_gt [OF _ _ _ ratio_power_bounds(2)]) simp_all
  also have "?r powr (real 51 / real 268) \<le> ?r powr (1 / 5.255)"
    by (rule powr_mono') simp_all
  finally show "0.97769 < ((900::real) / 1013.25) powr (1 / 5.255)"
    by (simp only: r)
  have "?r powr (1 / 5.255) \<le> ?r powr (real 47 / real 247)"
    by (rule powr_mono') simp_all
  also have "?r powr (real 47 / real 247) < 0.97771"
    by (rule powr_rat_lt [OF _ _ _ ratio_power_bounds(1)]) simp_all
  finally show "((900::real) / 1013.25) powr (1 / 5.255) < 0.97771"
    by (simp only: r)
qed

section \<open>The altitude\<close>

lemma alt_m_cases:
  "alt_m p b =
     (if b = 0 then Inl ZeroDivisionError
      else if p / b < 0 then Inl ComplexResult
      else Inr (44330 * (1 - (p / b) powr (1 / 5.255))))"
  by (simp add: alt_m_def py_div_def py_pow_def)

lemma alt_m_900:
  "alt_m 900 1013.25 = Inr (44330 * (1 - (900 / 1013.25) powr (1 / 5.255)))"
  by (simp add: alt_m_cases)

lemma alt_900_bounds:
  "988.1 < 44330 * (1 - ((900::real) / 1013.25) powr (1 / 5.255))"
  "44330 * (1 - ((900::real) / 1013.25) powr (1 / 5.255)) < 989.1"
  using ratio_powr_bounds by simp_all

section \<open>The accelerometer tilt\<close>

lemma py_sqrt_squares: "py_sqrt (x * x + y * y) = Inr (sqrt (x * x + y * y))"
  by (simp add: py_sqrt_def not_less)


lemma accel_angles_deg_eq:
  "accel_angles_deg ax ay az =
     Inr (degrees (atan2 ay az),
          degrees (atan2 (neg ax) (Fl (sqrt (val ay * val ay + val az * val az)))))"
  by (simp add: accel_angles_deg_def py_sqrt_squares)

lemma accel_angles_deg_level: "0 < az \<Longrightarrow> accel_angles_deg (Fl 0) (Fl 0) (Fl az) = Inr (0, 0)"
  by (simp add: accel_angles_deg_eq atan2_def degrees_def)

lemma accel_g_eq:
  "accel_g (ax, ay, az) =
     Inr (sqrt (val ax * val ax + val ay * val ay + val az * val az) / 9.80665)"
  by (simp add: accel_g_def py_sqrt_def not_less)

lemma accel_g_level: "accel_g (Fl 0, Fl 0, Fl 9.80665) = Inr 1"
proof -
  have "sqrt (9.80665 * 9.80665) = \<bar>9.80665 :: real\<bar>" by (rule real_sqrt_abs2)
  then show ?thesis by (simp add: accel_g_eq)
qed

lemma complementary_filter_eq:
  "complementary_filter (r, pt) (ax, ay, az) (gx, gy, gz) dt =
     Inr (alpha * (r + gx * dt) + (1 - alpha) * degrees (atan2 ay az),
          alpha * (pt + gy * dt)
            + (1 - alpha)
              * degrees (atan2 (neg ax) (Fl (sqrt (val ay * val ay + val az * val az)))))"
  by (simp add: complementary_filter_def accel_angles_deg_eq)

subsection \<open>The angle of a point\<close>











section \<open>The loop body and runs\<close>


lemma file_ops_append: "file_ops (ev @ ev') = file_ops ev @ file_ops ev'"
  by (induction ev rule: file_ops.induct) simp_all

lemma flush_marks_append: "flush_marks (ev @ ev') = flush_marks ev @ flush_marks ev'"
  by (simp add: flush_marks_def file_ops_append)

lemma flush_count_append: "flush_count (ev @ ev') = flush_count ev + flush_count ev'"
  by (simp add: flush_count_def)

lemma loop_body_InrD:
  assumes "loop_body s rd = Inr (s', ev)"
  shows "\<exists>a g r pt.
           alt_m (pressure rd) (p0 s) = Inr a
         \<and> complementary_filter (roll s, pitch s) (acceleration rd) (gyro rd)
               (now rd - last_t s) = Inr (r, pt)
         \<and> accel_g (acceleration rd) = Inr g
         \<and> s' = s\<lparr>roll := r, pitch := pt, last_t := now rd,
                  last_status := (if 1 \<le> now rd - last_status s then now rd else last_status s),
                  line_count := line_count s + 1\<rparr>
         \<and> ev = [Write (csv_row a g r pt)]
                @ (if (line_count s + 1) mod 25 = 0 then [Flush] else [])
                @ (if 1 \<le> now rd - last_status s then [Print (status_line a g r pt)] else [])"
  using assms
  by (auto simp: loop_body_def Let_def flush_every_def split: sum.splits)

lemma loop_body_p0: "loop_body s rd = Inr (s', ev) \<Longrightarrow> p0 s' = p0 s"
  by (drule loop_body_InrD) auto

lemma loop_body_line_count:
  "loop_body s rd = Inr (s', ev) \<Longrightarrow> line_count s' = line_count s + 1"
  by (drule loop_body_InrD) auto

lemma loop_body_flush_marks:
  "loop_body s rd = Inr (s', ev) \<Longrightarrow>
     flush_marks ev = (if 25 dvd (line_count s + 1) then [False, True] else [False])"
  by (drule loop_body_InrD) (auto simp: flush_marks_def mod_eq_0_iff_dvd)

lemma loop_body_flush_count:
  "loop_body s rd = Inr (s', ev) \<Longrightarrow>
     flush_count ev = (if 25 dvd (line_count s + 1) then 1 else 0)"
  by (drule loop_body_InrD) (auto simp: flush_count_def mod_eq_0_iff_dvd)


lemma run_ConsD:
  assumes "run s (rd # rds) = Inr (s'', ev)"
  obtains s' ev1 ev2 where "loop_body s rd = Inr (s', ev1)" "run s' rds = Inr (s'', ev2)"
    "ev = ev1 @ ev2"
  using assms by (auto split: sum.splits)

lemma run_p0: "run s rds = Inr (s', ev) \<Longrightarrow> p0 s' = p0 s"
proof (induction rds arbitrary: s ev)
  case Nil
  then show ?case by simp
next
  case (Cons rd rds)
  from Cons.prems obtain s1 ev1 ev2 where
    "loop_body s rd = Inr (s1, ev1)" "run s1 rds = Inr (s', ev2)"
    by (rule run_ConsD)
  then show ?case using Cons.IH [of s1 ev2] loop_body_p0 [of s rd s1 ev1] by simp
qed

lemma run_line_count:
  "run s rds = Inr (s', ev) \<Longrightarrow> line_count s' = line_count s + int (length rds)"
proof (induction rds arbitrary: s ev)
  case Nil
  then show ?case by simp
next
  case (Cons rd rds)
  from Cons.prems obtain s1 ev1 ev2 where
    1: "loop_body s rd = Inr (s1, ev1)" and 2: "run s1 rds = Inr (s', ev2)"
    by (rule run_ConsD)
  show ?case
    using Cons.IH [OF 2] loop_body_line_count [OF 1] by simp
qed

lemma upt_Suc_shift: "map f [1..<Suc (Suc n)] = f 1 # map (\<lambda>k. f (Suc k)) [1..<Suc n]"
proof -
  have "[1..<Suc (Suc n)] = 1 # [Suc 1..<Suc (Suc n)]"
    by (rule upt_conv_Cons) simp
  also have "[Suc 1..<Suc (Suc n)] = map Suc [1..<Suc n]"
    by (rule map_Suc_upt [symmetric])
  finally show ?thesis by (simp add: comp_def del: upt_Suc)
qed

lemma run_flush_marks:
  "run s rds = Inr (s', ev) \<Longrightarrow>
     flush_marks ev =
       concat (map (\<lambda>k. if 25 dvd (line_count s + int k) then [False, True] else [False])
                 [1..<Suc (length rds)])"
proof (induction rds arbitrary: s ev)
  case Nil
  then show ?case by (simp add: flush_marks_def)
next
  case (Cons rd rds)
  from Cons.prems obtain s1 ev1 ev2 where
    1: "loop_body s rd = Inr (s1, ev1)" and 2: "run s1 rds = Inr (s', ev2)"
    and ev: "ev = ev1 @ ev2"
    by (rule run_ConsD)
  have lc: "line_count s1 = line_count s + 1" by (rule loop_body_line_count [OF 1])
  have "flush_marks ev = flush_marks ev1 @ flush_marks ev2"
    by (simp add: ev flush_marks_append)
  also have "flush_marks ev1 = (if 25 dvd (line_count s + 1) then [False, True] else [False])"
    by (rule loop_body_flush_marks [OF 1])
  also have "flush_marks ev2 =
      concat (map (\<lambda>k. if 25 dvd (line_count s1 + int k) then [False, True] else [False])
                [1..<Suc (length rds)])"
    by (rule Cons.IH [OF 2])
  also have "(\<lambda>k. if 25 dvd (line_count s1 + int k) then [False, True] else [False]) =
      (\<lambda>k. if 25 dvd (line_count s + int (Suc k)) then [False, True] else [False])"
    by (simp add: lc add.assoc)
  finally have "flush_marks ev =
      concat (map (\<lambda>k. if 25 dvd (line_count s + int k) then [False, True] else [False])
                [1..<Suc (Suc (length rds))])"
    by (simp only: upt_Suc_shift concat.simps of_nat_1)
  then show ?case by (simp only: length_Cons)
qed

lemma div_25_step: "(c + 1) div 25 - c div 25 = (if 25 dvd (c + 1) then 1 else 0)" for c :: int
proof -
  define q r where "q = c div 25" and "r = c mod 25"
  have c: "c = 25 * q + r" and r: "0 \<le> r" "r < 25"
    by (simp_all add: q_def r_def)
  show ?thesis
  proof (cases "r = 24")
    case True
    then have "c + 1 = 25 * (q + 1)" using c by simp
    then show ?thesis by (simp add: q_def [symmetric])
  next
    case False
    then have lt: "r + 1 < 25" using r by simp
    have eq: "c + 1 = 25 * q + (r + 1)" using c by simp
    have "(c + 1) div 25 = q"
      by (rule int_div_pos_eq [OF eq]) (use r lt in simp_all)
    moreover have "(c + 1) mod 25 = r + 1"
      by (rule int_mod_pos_eq [OF eq]) (use r lt in simp_all)
    ultimately show ?thesis using r by (simp add: q_def [symmetric] dvd_eq_mod_eq_0)
  qed
qed

lemma run_flush_count:
  "run s rds = Inr (s', ev) \<Longrightarrow>
     int (flush_count ev) = (line_count s + int (length rds)) div 25 - line_count s div 25"
proof (induction rds arbitrary: s ev)
  case Nil
  then show ?case by (simp add: flush_count_def)
next
  case (Cons rd rds)
  from Cons.prems obtain s1 ev1 ev2 where
    1: "loop_body s rd = Inr (s1, ev1)" and 2: "run s1 rds = Inr (s', ev2)"
    and ev: "ev = ev1 @ ev2"
    by (rule run_ConsD)
  have lc: "line_count s1 = line_count s + 1" by (rule loop_body_line_count [OF 1])
  have "int (flush_count ev) = int (flush_count ev1) + int (flush_count ev2)"
    by (simp add: ev flush_count_append)
  also have "int (flush_count ev1) = (line_count s + 1) div 25 - line_count s div 25"
    using loop_body_flush_count [OF 1] by (simp add: div_25_step)
  also have "int (flush_count ev2) =
      (line_count s + 1 + int (length rds)) div 25 - (line_count s + 1) div 25"
    using Cons.IH [OF 2] by (simp add: lc)
  finally show ?case by (simp add: add.assoc add.commute)
qed

lemma startup_eq:
  "startup pr (ax, ay, az) t0 path =
     Inr (\<lparr>p0 = pr, roll = degrees (atan2 ay az),
           pitch = degrees (atan2 (neg ax) (Fl (sqrt (val ay * val ay + val az * val az)))),
           last_t = t0, last_status = t0, line_count = 0\<rparr>,
          [Write header, Print (''Logging to: '' @ path)])"
  by (simp add: startup_def accel_angles_deg_eq)

lemma logger_InrD:
  assumes "logger pr acc t0 path rds = Inr (s', ev)"
  obtains s evs where "startup pr acc t0 path = Inr (s, [Write header, Print (''Logging to: '' @ path)])"
    "line_count s = 0" "p0 s = pr" "run s rds = Inr (s', evs)"
    "ev = [Write header, Print (''Logging to: '' @ path)] @ evs"
proof -
  obtain ax ay az where acc: "acc = (ax, ay, az)" by (cases acc) auto
  show ?thesis
    using assms that unfolding logger_def acc startup_eq
    by (auto split: sum.splits)
qed

section \<open>The payload at rest\<close>

text \<open>
  The formatter and one pass of the loop evaluated for a payload that lies level and still at
  the launch pressure. These runs serve as concrete instances below.
\<close>

lemma frac_digits_numeral:
  "frac_digits (numeral k) m = frac_digits (pred_numeral k) (m div 10) @ [digit m]"
proof -
  have e: "(numeral k :: nat) = Suc (pred_numeral k)" by (rule numeral_eq_Suc)
  show ?thesis unfolding e by simp
qed

lemmas fmt_eval = fmt_f_def round_half_even_def digit_def dec.simps frac_digits_numeral Let_def

lemma fmt_f_2_0: "fmt_f 2 0 = ''0.00''"
  by (simp add: fmt_eval)

lemma fmt_f_3_1: "fmt_f 3 1 = ''1.000''"
  by (simp add: fmt_eval)

lemma fmt_f_1_0: "fmt_f (Suc 0) 0 = ''0.0''"
  by (simp add: fmt_eval)

lemma fmt_f_44330: "fmt_f 2 44330 = ''44330.00''"
  by (simp add: fmt_eval)

lemma fmt_f_neg: "fmt_f 2 (- 0.125) = ''-0.12''"
  by (simp add: fmt_eval)

lemma csv_row_level: "csv_row 0 1 0 0 = ''0.00,1.000,0.00,0.00'' @ [CHR 0x0A]"
  by (simp add: csv_row_def fmt_f_2_0 fmt_f_3_1)

lemma status_line_level:
  "status_line 0 1 0 0 =
     ''alt=0.00 m, a=1.000 g, roll=0.0'' @ [CHR 0xC2, CHR 0xB0] @ '', pitch=0.0''
     @ [CHR 0xC2, CHR 0xB0]"
  by (simp add: status_line_def fmt_f_2_0 fmt_f_3_1 fmt_f_1_0)


lemma alt_m_same: "b \<noteq> 0 \<Longrightarrow> alt_m b b = Inr 0"
  by (simp add: alt_m_cases)

lemma accel_g_up: "0 \<le> az \<Longrightarrow> accel_g (Fl 0, Fl 0, Fl az) = Inr (az / 9.80665)"
  by (simp add: accel_g_eq)

lemma filter_level:
  "0 < az \<Longrightarrow> complementary_filter (0, 0) (Fl 0, Fl 0, Fl az) (0, 0, 0) dt = Inr (0, 0)"
  by (simp add: complementary_filter_eq atan2_def degrees_def)

lemma loop_body_still:
  assumes "alt_m p b = Inr a" "0 < az"
  shows "loop_body \<lparr>p0 = b, roll = 0, pitch = 0, last_t = u, last_status = v, line_count = n\<rparr>
           \<lparr>now = t, acceleration = (Fl 0, Fl 0, Fl az), gyro = (0, 0, 0), pressure = p\<rparr> =
     Inr (\<lparr>p0 = b, roll = 0, pitch = 0, last_t = t,
           last_status = (if 1 \<le> t - v then t else v), line_count = n + 1\<rparr>,
          [Write (csv_row a (az / 9.80665) 0 0)]
          @ (if (n + 1) mod 25 = 0 then [Flush] else [])
          @ (if 1 \<le> t - v then [Print (status_line a (az / 9.80665) 0 0)] else []))"
  using assms
  by (simp add: loop_body_def accel_g_up filter_level flush_every_def Let_def)

lemma loop_body_rest:
  assumes "b \<noteq> 0" "0 < az"
  shows "loop_body \<lparr>p0 = b, roll = 0, pitch = 0, last_t = u, last_status = v, line_count = n\<rparr>
           \<lparr>now = t, acceleration = (Fl 0, Fl 0, Fl az), gyro = (0, 0, 0), pressure = b\<rparr> =
     Inr (\<lparr>p0 = b, roll = 0, pitch = 0, last_t = t,
           last_status = (if 1 \<le> t - v then t else v), line_count = n + 1\<rparr>,
          [Write (csv_row 0 (az / 9.80665) 0 0)]
          @ (if (n + 1) mod 25 = 0 then [Flush] else [])
          @ (if 1 \<le> t - v then [Print (status_line 0 (az / 9.80665) 0 0)] else []))"
  using assms by (simp add: loop_body_still alt_m_same)

lemma loop_body_level:
  "loop_body (level_state\<lparr>last_t := u, last_status := v, line_count := n\<rparr>) (level_reading t) =
     Inr (level_state\<lparr>last_t := t, last_status := (if 1 \<le> t - v then t else v),
                      line_count := n + 1\<rparr>,
          [Write (csv_row 0 1 0 0)]
          @ (if (n + 1) mod 25 = 0 then [Flush] else [])
          @ (if 1 \<le> t - v then [Print (status_line 0 1 0 0)] else []))"
  using loop_body_rest [where b = "1013.25" and az = "9.80665" and u = u and v = v
      and n = n and t = t]
  by (simp add: level_state_def level_reading_def)

lemma run_level:
  "run (level_state\<lparr>last_t := u, last_status := 0, line_count := n\<rparr>)
       (replicate k (level_reading 0)) =
     Inr (level_state\<lparr>last_t := (if k = 0 then u else 0), last_status := 0,
                      line_count := n + int k\<rparr>,
          concat (map (\<lambda>j. [Write (csv_row 0 1 0 0)]
                          @ (if (n + int j) mod 25 = 0 then [Flush] else []))
                   [1..<Suc k]))"
proof (induction k arbitrary: u n)
  case 0
  then show ?case by simp
next
  case (Suc k)
  have "concat (map (\<lambda>j. [Write (csv_row 0 1 0 0)]
                          @ (if (n + int j) mod 25 = 0 then [Flush] else []))
                   [1..<Suc (Suc k)])
      = ([Write (csv_row 0 1 0 0)] @ (if (n + 1) mod 25 = 0 then [Flush] else []))
        @ concat (map (\<lambda>j. [Write (csv_row 0 1 0 0)]
                          @ (if (n + 1 + int j) mod 25 = 0 then [Flush] else []))
                   [1..<Suc k])"
    by (simp only: upt_Suc_shift concat.simps of_nat_1 of_nat_Suc add.assoc)
  then show ?case
    using Suc.IH [where u = 0 and n = "n + 1"]
    by (simp add: loop_body_level add.assoc del: upt_Suc)
qed


lemma loop_body_level0:
  "loop_body level_state (level_reading t) =
     Inr (level_state\<lparr>last_t := t, last_status := (if 1 \<le> t then t else 0), line_count := 1\<rparr>,
          [Write (csv_row 0 1 0 0)]
          @ (if 1 \<le> t then [Print (status_line 0 1 0 0)] else []))"
  using loop_body_level [where u = 0 and v = 0 and n = 0 and t = t]
  by (simp add: level_state_def)

lemma startup_level:
  "0 < az \<Longrightarrow>
     startup pr (Fl 0, Fl 0, Fl az) t0 path =
       Inr (\<lparr>p0 = pr, roll = 0, pitch = 0, last_t = t0, last_status = t0, line_count = 0\<rparr>,
            [Write header, Print (''Logging to: '' @ path)])"
  by (simp add: startup_def accel_angles_deg_level)

lemma logger_level:
  "logger 1013.25 (Fl 0, Fl 0, Fl 9.80665) 0 path (replicate k (level_reading 0)) =
     Inr (level_state\<lparr>last_t := 0, last_status := 0, line_count := int k\<rparr>,
          [Write header, Print (''Logging to: '' @ path)]
          @ concat (map (\<lambda>j. [Write (csv_row 0 1 0 0)]
                          @ (if int j mod 25 = 0 then [Flush] else []))
                   [1..<Suc k]))"
proof -
  have st: "startup 1013.25 (Fl 0, Fl 0, Fl 9.80665) 0 path =
      Inr (level_state\<lparr>last_t := 0, last_status := 0, line_count := 0\<rparr>,
           [Write header, Print (''Logging to: '' @ path)])"
    using startup_level [of "9.80665" "1013.25" 0 path] by (simp add: level_state_def)
  have rn: "run (level_state\<lparr>last_t := 0, last_status := 0, line_count := 0\<rparr>)
              (replicate k (level_reading 0)) =
      Inr (level_state\<lparr>last_t := 0, last_status := 0, line_count := int k\<rparr>,
           concat (map (\<lambda>j. [Write (csv_row 0 1 0 0)]
                          @ (if int j mod 25 = 0 then [Flush] else []))
                   [1..<Suc k]))"
    using run_level [where u = 0 and n = 0 and k = k] by (simp del: upt_Suc)
  show ?thesis
    by (simp only: logger_def st rn sum.case prod.case)
qed

lemma marks_25:
  "concat (map (\<lambda>k. if 25 dvd k then [False, True] else [False]) [1..<Suc 25])
     = replicate 25 False @ [True]"
  by code_simp

section \<open>The shape of the written lines\<close>













section \<open>Claims about the altitude\<close>

text \<open>
  C1 (amended). For every pressure \<open>p > 0\<close> and baseline \<open>b > 0\<close> the altitude is
  \<open>44330 * (1 - (p / b) ^ (1 / 5.255))\<close>; for \<open>p = b\<close> it is exactly 0; for the baseline
  1013.25 and the pressure 900.0 it is within 0.5 m of 988.6 m.
\<close>

theorem alt_m_barometric:
  "0 < p \<Longrightarrow> 0 < b \<Longrightarrow>
     alt_m p b = Inr (44330 * (1 - (p / b) powr (1 / 5.255)))
     \<and> alt_m b b = Inr 0
     \<and> (\<exists>a. alt_m 900 1013.25 = Inr a \<and> \<bar>a - 988.6\<bar> < 0.5)"
proof (intro conjI)
  assume "0 < p" "0 < b"
  then show "alt_m p b = Inr (44330 * (1 - (p / b) powr (1 / 5.255)))"
    by (simp add: alt_m_cases not_less)
  show "alt_m b b = Inr 0"
    using \<open>0 < b\<close> by (simp add: alt_m_cases)
  define a :: real where "a = 44330 * (1 - (900 / 1013.25) powr (1 / 5.255))"
  have "988.1 < a" "a < 989.1"
    unfolding a_def by (rule alt_900_bounds)+
  then have "\<bar>a - 988.6\<bar> < 0.5" by linarith
  then have "\<bar>44330 * (1 - ((900::real) / 1013.25) powr (1 / 5.255)) - 988.6\<bar> < 0.5"
    unfolding a_def .
  with alt_m_900 show "\<exists>a. alt_m 900 1013.25 = Inr a \<and> \<bar>a - 988.6\<bar> < 0.5"
    by blast
qed

theorem alt_m_barometric_witness:
  "(0::real) < 900 \<and> (0::real) < 1013.25
   \<and> alt_m 900 1013.25 = Inr (44330 * (1 - (900 / 1013.25) powr (1 / 5.255)))
   \<and> alt_m 1013.25 1013.25 = Inr 0"
  using alt_m_barometric [of 900 "1013.25"] by simp

theorem alt_m_1000_8_counterexample:
  "alt_m 900 1013.25 = Inr (44330 * (1 - (900 / 1013.25) powr (1 / 5.255)))
   \<and> \<not> \<bar>44330 * (1 - (900 / 1013.25) powr (1 / 5.255)) - 1000.8\<bar> \<le> (0.5::real)"
proof
  show "alt_m 900 1013.25 = Inr (44330 * (1 - (900 / 1013.25) powr (1 / 5.255)))"
    by (rule alt_m_900)
  define a :: real where "a = 44330 * (1 - (900 / 1013.25) powr (1 / 5.255))"
  have "a < 989.1"
    unfolding a_def by (rule alt_900_bounds)
  then have "\<not> \<bar>a - 1000.8\<bar> \<le> 0.5" by linarith
  then show "\<not> \<bar>44330 * (1 - (900 / 1013.25) powr (1 / 5.255)) - 1000.8\<bar> \<le> (0.5::real)"
    unfolding a_def .
qed

text \<open>
  C2 (amended). The altitude is computed without any guard or sentinel. With a zero baseline
  the division raises \<open>ZeroDivisionError\<close>; with a negative ratio \<open>p / b\<close> the fractional
  power is not a float and no altitude results; in every other case, \<open>p = 0\<close> included,
  the result is the value of the barometric formula, which for \<open>p = 0\<close> is 44330.0.
  An error of the altitude computation is the outcome of the loop pass and of the run:
  nothing in the loop handles it. A pass that succeeds writes one line whose first field is
  the altitude it computed, printed with two decimals, whatever the pressure was.
\<close>

theorem alt_m_unguarded:
  "alt_m p b =
     (if b = 0 then Inl ZeroDivisionError
      else if p / b < 0 then Inl ComplexResult
      else Inr (44330 * (1 - (p / b) powr (1 / 5.255))))
   \<and> alt_m 0 b = (if b = 0 then Inl ZeroDivisionError else Inr 44330)
   \<and> (alt_m (pressure rd) (p0 s) = Inl e \<longrightarrow>
        loop_body s rd = Inl e \<and> run s (rd # rds) = Inl e)
   \<and> (loop_body s rd = Inr (s', ev) \<longrightarrow>
        (\<exists>a g. alt_m (pressure rd) (p0 s) = Inr a
           \<and> accel_g (acceleration rd) = Inr g
           \<and> written ev =
               [fmt_f 2 a @ '','' @ fmt_f 3 g @ '','' @ fmt_f 2 (roll s') @ '',''
                @ fmt_f 2 (pitch s') @ [CHR 0x0A]]))"
proof (intro conjI impI)
  show "alt_m p b =
     (if b = 0 then Inl ZeroDivisionError
      else if p / b < 0 then Inl ComplexResult
      else Inr (44330 * (1 - (p / b) powr (1 / 5.255))))"
    by (rule alt_m_cases)
  show "alt_m 0 b = (if b = 0 then Inl ZeroDivisionError else Inr 44330)"
    by (simp add: alt_m_cases)
next
  assume "alt_m (pressure rd) (p0 s) = Inl e"
  then show "loop_body s rd = Inl e" by (simp add: loop_body_def)
  then show "run s (rd # rds) = Inl e" by simp
next
  assume "loop_body s rd = Inr (s', ev)"
  from loop_body_InrD [OF this] obtain a g r pt where
    "alt_m (pressure rd) (p0 s) = Inr a" "accel_g (acceleration rd) = Inr g"
    "s' = s\<lparr>roll := r, pitch := pt, last_t := now rd,
            last_status := (if 1 \<le> now rd - last_status s then now rd else last_status s),
            line_count := line_count s + 1\<rparr>"
    "ev = [Write (csv_row a g r pt)]
          @ (if (line_count s + 1) mod 25 = 0 then [Flush] else [])
          @ (if 1 \<le> now rd - last_status s then [Print (status_line a g r pt)] else [])"
    by blast
  then have "alt_m (pressure rd) (p0 s) = Inr a \<and> accel_g (acceleration rd) = Inr g
      \<and> written ev =
               [fmt_f 2 a @ '','' @ fmt_f 3 g @ '','' @ fmt_f 2 (roll s') @ '',''
                @ fmt_f 2 (pitch s') @ [CHR 0x0A]]"
    by (simp add: csv_row_def)
  then show "\<exists>a g. alt_m (pressure rd) (p0 s) = Inr a
           \<and> accel_g (acceleration rd) = Inr g
           \<and> written ev =
               [fmt_f 2 a @ '','' @ fmt_f 3 g @ '','' @ fmt_f 2 (roll s') @ '',''
                @ fmt_f 2 (pitch s') @ [CHR 0x0A]]"
    by blast
qed

theorem alt_m_unguarded_witness:
  "alt_m (pressure (level_reading 1\<lparr>pressure := - 900\<rparr>)) (p0 level_state) = Inl ComplexResult
   \<and> loop_body level_state (level_reading 1\<lparr>pressure := - 900\<rparr>) = Inl ComplexResult
   \<and> loop_body level_state (level_reading 0.05\<lparr>pressure := 0\<rparr>) =
       Inr (level_state\<lparr>last_t := 0.05, line_count := 1\<rparr>, [Write (csv_row 44330 1 0 0)])
   \<and> (\<exists>a g. alt_m (pressure (level_reading 0.05\<lparr>pressure := 0\<rparr>)) (p0 level_state) = Inr a
         \<and> accel_g (acceleration (level_reading 0.05\<lparr>pressure := 0\<rparr>)) = Inr g
         \<and> written [Write (csv_row 44330 1 0 0)] =
             [fmt_f 2 a @ '','' @ fmt_f 3 g @ '',''
              @ fmt_f 2 (roll (level_state\<lparr>last_t := 0.05, line_count := 1\<rparr>)) @ '',''
              @ fmt_f 2 (pitch (level_state\<lparr>last_t := 0.05, line_count := 1\<rparr>))
              @ [CHR 0x0A]])"
proof -
  have e: "alt_m (pressure (level_reading 1\<lparr>pressure := - 900\<rparr>)) (p0 level_state)
      = Inl ComplexResult"
    by (simp add: level_reading_def level_state_def alt_m_cases)
  have lb: "loop_body level_state (level_reading 0.05\<lparr>pressure := 0\<rparr>) =
       Inr (level_state\<lparr>last_t := 0.05, line_count := 1\<rparr>, [Write (csv_row 44330 1 0 0)])"
    using loop_body_still [where p = 0 and b = "1013.25" and a = 44330 and az = "9.80665"
        and u = 0 and v = 0 and n = 0 and t = "0.05"]
    by (simp add: level_reading_def level_state_def alt_m_cases)
  from alt_m_unguarded [THEN conjunct2, THEN conjunct2, THEN conjunct1, rule_format, OF e]
    alt_m_unguarded [THEN conjunct2, THEN conjunct2, THEN conjunct2, rule_format, OF lb]
    e lb
  show ?thesis by simp
qed

theorem alt_m_sentinel_counterexample:
  "alt_m 0 1013.25 = Inr 44330 \<and> alt_m (- 900) 1013.25 = Inl ComplexResult
   \<and> loop_body level_state (level_reading 0.05\<lparr>pressure := 0\<rparr>) =
       Inr (level_state\<lparr>last_t := 0.05, line_count := 1\<rparr>,
            [Write (''44330.00,1.000,0.00,0.00'' @ [CHR 0x0A])])
   \<and> loop_body level_state (level_reading 0.05\<lparr>pressure := - 900\<rparr>) = Inl ComplexResult
   \<and> run level_state [level_reading 0.05\<lparr>pressure := - 900\<rparr>, level_reading 0.1]
       = Inl ComplexResult"
proof -
  have lb: "loop_body level_state (level_reading 0.05\<lparr>pressure := 0\<rparr>) =
       Inr (level_state\<lparr>last_t := 0.05, line_count := 1\<rparr>, [Write (csv_row 44330 1 0 0)])"
    using loop_body_still [where p = 0 and b = "1013.25" and a = 44330 and az = "9.80665"
        and u = 0 and v = 0 and n = 0 and t = "0.05"]
    by (simp add: level_reading_def level_state_def alt_m_cases)
  have r: "csv_row 44330 1 0 0 = ''44330.00,1.000,0.00,0.00'' @ [CHR 0x0A]"
    by (simp add: csv_row_def fmt_f_2_0 fmt_f_3_1 fmt_f_44330)
  have e: "loop_body level_state (level_reading 0.05\<lparr>pressure := - 900\<rparr>) = Inl ComplexResult"
    by (simp add: loop_body_def level_reading_def level_state_def alt_m_cases)
  show ?thesis
    using lb [unfolded r] e by (simp add: alt_m_cases)
qed

section \<open>Claims about the attitude\<close>

text \<open>
  C3. One filter update returns
  \<open>roll = 0.98 * (prev_roll + gx * dt) + (1 - 0.98) * roll_acc\<close> and
  \<open>pitch = 0.98 * (prev_pitch + gy * dt) + (1 - 0.98) * pitch_acc\<close>, where
  \<open>(roll_acc, pitch_acc)\<close> is the accelerometer-only tilt of \<open>(ax, ay, az)\<close>, which always
  exists; the new roll and pitch of a loop pass are this update of the old ones with
  \<open>dt = now - last_t\<close>.
\<close>

theorem complementary_filter_update:
  "(\<exists>roll_acc pitch_acc.
      accel_angles_deg ax ay az = Inr (roll_acc, pitch_acc)
      \<and> complementary_filter (prev_roll, prev_pitch) (ax, ay, az) (gx, gy, gz) dt =
          Inr (0.98 * (prev_roll + gx * dt) + (1 - 0.98) * roll_acc,
               0.98 * (prev_pitch + gy * dt) + (1 - 0.98) * pitch_acc))
   \<and> (loop_body s rd = Inr (s', ev) \<longrightarrow>
        complementary_filter (roll s, pitch s) (acceleration rd) (gyro rd) (now rd - last_t s)
          = Inr (roll s', pitch s'))"
proof (intro conjI impI)
  show "\<exists>roll_acc pitch_acc.
      accel_angles_deg ax ay az = Inr (roll_acc, pitch_acc)
      \<and> complementary_filter (prev_roll, prev_pitch) (ax, ay, az) (gx, gy, gz) dt =
          Inr (0.98 * (prev_roll + gx * dt) + (1 - 0.98) * roll_acc,
               0.98 * (prev_pitch + gy * dt) + (1 - 0.98) * pitch_acc)"
    by (simp add: accel_angles_deg_eq complementary_filter_eq alpha_def)
next
  assume "loop_body s rd = Inr (s', ev)"
  then show "complementary_filter (roll s, pitch s) (acceleration rd) (gyro rd)
               (now rd - last_t s) = Inr (roll s', pitch s')"
    by (auto simp: loop_body_def Let_def split: sum.splits)
qed

theorem complementary_filter_update_witness:
  "loop_body level_state (level_reading 0.05) =
     Inr (level_state\<lparr>last_t := 0.05, last_status := 0, line_count := 1\<rparr>,
          [Write (csv_row 0 1 0 0)])
   \<and> complementary_filter (roll level_state, pitch level_state)
         (acceleration (level_reading 0.05)) (gyro (level_reading 0.05))
         (now (level_reading 0.05) - last_t level_state) = Inr (0, 0)"
proof -
  have lb: "loop_body level_state (level_reading 0.05) =
     Inr (level_state\<lparr>last_t := 0.05, last_status := 0, line_count := 1\<rparr>,
          [Write (csv_row 0 1 0 0)])"
    by (simp add: loop_body_level0)
  from complementary_filter_update [THEN conjunct2, rule_format, OF lb] lb
  show ?thesis by (simp add: level_state_def)
qed



text \<open>
  C5 (amended). In a filter update the gyro-integrated value has the weight
  \<open>alpha = 0.98\<close> and the accelerometer tilt the weight \<open>1 - alpha\<close>: the former weighs
  forty-nine to one against the latter, \<open>alpha / (1 - alpha) = 49\<close>.
\<close>

theorem alpha_ratio:
  "(\<exists>roll_acc pitch_acc.
      accel_angles_deg ax ay az = Inr (roll_acc, pitch_acc)
      \<and> complementary_filter (prev_roll, prev_pitch) (ax, ay, az) (gx, gy, gz) dt =
          Inr (alpha * (prev_roll + gx * dt) + (1 - alpha) * roll_acc,
               alpha * (prev_pitch + gy * dt) + (1 - alpha) * pitch_acc))
   \<and> alpha = 0.98 \<and> alpha / (1 - alpha) = 49"
  by (simp add: accel_angles_deg_eq complementary_filter_eq) (simp add: alpha_def)

theorem alpha_ratio_counterexample:
  "complementary_filter (1, 0) (Fl 0, Fl 0, Fl 1) (0, 0, 0) 0 = Inr (0.98, 0)
   \<and> complementary_filter (0, 0) (Fl 0, Fl 1, Fl 0) (0, 0, 0) 0 = Inr (0.02 * 90, 0)
   \<and> (0.98 :: real) / 0.02 \<noteq> 9 / 8
   \<and> alpha / (1 - alpha) \<noteq> 9 / 8"
  by (simp add: complementary_filter_eq atan2_def degrees_def alpha_def)

text \<open>
  C7 (amended). With \<open>gx = gy = 0\<close> and \<open>dt = 0\<close> the filter update leaves
  \<open>(roll, pitch)\<close> unchanged exactly when \<open>(roll, pitch)\<close> already is the accelerometer-only
  tilt of the input.
\<close>

theorem filter_fixed_point:
  "complementary_filter (r, pt) (ax, ay, az) (0, 0, gz) 0 = Inr (r, pt)
     \<longleftrightarrow> accel_angles_deg ax ay az = Inr (r, pt)"
  by (auto simp: complementary_filter_eq accel_angles_deg_eq alpha_def)

theorem filter_fixed_point_counterexample:
  "complementary_filter (10, 0) (Fl 0, Fl 0, Fl 1) (0, 0, 0) 0 = Inr (9.8, 0)
   \<and> complementary_filter (9.8, 0) (Fl 0, Fl 0, Fl 1) (0, 0, 0) 0 = Inr (9.604, 0)"
  by (simp add: complementary_filter_eq atan2_def degrees_def alpha_def)

section \<open>Claims about the log\<close>

text \<open>
  C6. After start-up and \<open>N\<close> loop passes exactly \<open>N div 25\<close> flushes have happened. The
  file operations are the write of the header, then for \<open>k = 1, ..., N\<close> the write of pass
  \<open>k\<close>, followed by a flush exactly when 25 divides \<open>k\<close>: flushes happen on passes 25, 50,
  75, ... and none before the first pass.
\<close>

theorem flush_every_25:
  assumes "logger pr acc t0 path rds = Inr (s', ev)"
  shows "flush_count ev = length rds div 25
       \<and> flush_marks ev =
           False # concat (map (\<lambda>k. if 25 dvd k then [False, True] else [False])
                             [1..<Suc (length rds)])"
proof -
  from assms obtain s evs where s: "line_count s = 0" and r: "run s rds = Inr (s', evs)"
    and ev: "ev = [Write header, Print (''Logging to: '' @ path)] @ evs"
    by (rule logger_InrD)
  have "int (flush_count evs) = int (length rds) div 25"
    using run_flush_count [OF r] by (simp add: s)
  then have "flush_count evs = length rds div 25"
    by (simp add: zdiv_int [symmetric] del: zdiv_int)
  moreover have "flush_marks evs =
      concat (map (\<lambda>k. if 25 dvd k then [False, True] else [False]) [1..<Suc (length rds)])"
    using run_flush_marks [OF r] by (simp add: s int_dvd_int_iff [symmetric] del: int_dvd_int_iff)
  ultimately show ?thesis
    by (simp add: ev flush_count_def flush_marks_def)
qed

theorem flush_every_25_witness:
  "\<exists>s ev. logger 1013.25 (Fl 0, Fl 0, Fl 9.80665) 0 ''/logs/log_001.csv''
             (replicate 25 (level_reading 0)) = Inr (s, ev)
     \<and> flush_count ev = 1
     \<and> flush_marks ev = False # replicate 25 False @ [True]"
proof -
  obtain s ev where l: "logger 1013.25 (Fl 0, Fl 0, Fl 9.80665) 0 ''/logs/log_001.csv''
             (replicate 25 (level_reading 0)) = Inr (s, ev)"
    using logger_level by blast
  have "flush_count ev = 1 \<and> flush_marks ev = False # replicate 25 False @ [True]"
    using flush_every_25 [OF l] by (simp only: length_replicate marks_25) simp
  with l show ?thesis by blast
qed



text \<open>
  C8 (amended). Start-up does not check the baseline: for every first pressure reading,
  zero and negative ones included, it succeeds, keeps the reading as \<open>p0\<close> and goes on
  to the loop. No loop pass changes \<open>p0\<close>.
\<close>

theorem baseline_unchecked:
  "(\<exists>r pt. startup pr (ax, ay, az) t0 path =
       Inr (\<lparr>p0 = pr, roll = r, pitch = pt, last_t = t0, last_status = t0, line_count = 0\<rparr>,
            [Write header, Print (''Logging to: '' @ path)]))
   \<and> (run s rds = Inr (s', ev) \<longrightarrow> p0 s' = p0 s)
   \<and> (logger pr (ax, ay, az) t0 path rds = Inr (s', ev) \<longrightarrow> p0 s' = pr)"
proof (intro conjI impI)
  show "\<exists>r pt. startup pr (ax, ay, az) t0 path =
       Inr (\<lparr>p0 = pr, roll = r, pitch = pt, last_t = t0, last_status = t0, line_count = 0\<rparr>,
            [Write header, Print (''Logging to: '' @ path)])"
    by (simp add: startup_eq)
next
  assume "run s rds = Inr (s', ev)"
  then show "p0 s' = p0 s" by (rule run_p0)
next
  assume "logger pr (ax, ay, az) t0 path rds = Inr (s', ev)"
  then obtain s0 evs where "p0 s0 = pr" "run s0 rds = Inr (s', evs)"
    by (rule logger_InrD)
  then show "p0 s' = pr" using run_p0 [of s0 rds s' evs] by simp
qed

theorem baseline_unchecked_witness:
  "run level_state [level_reading 0.05, level_reading 0.1] =
     Inr (level_state\<lparr>last_t := 0.1, last_status := 0, line_count := 2\<rparr>,
          [Write (csv_row 0 1 0 0), Write (csv_row 0 1 0 0)])
   \<and> p0 (level_state\<lparr>last_t := 0.1, last_status := 0, line_count := 2\<rparr>) = p0 level_state
   \<and> logger 1013.25 (Fl 0, Fl 0, Fl 9.80665) 0 ''/logs/log_001.csv''
        (replicate 2 (level_reading 0))
      = Inr (level_state\<lparr>last_t := 0, last_status := 0, line_count := 2\<rparr>,
          [Write header, Print ''Logging to: /logs/log_001.csv'',
           Write (csv_row 0 1 0 0), Write (csv_row 0 1 0 0)])
   \<and> p0 (level_state\<lparr>last_t := 0, last_status := 0, line_count := 2\<rparr>) = 1013.25"
proof -
  have r: "run level_state [level_reading 0.05, level_reading 0.1] =
     Inr (level_state\<lparr>last_t := 0.1, last_status := 0, line_count := 2\<rparr>,
          [Write (csv_row 0 1 0 0), Write (csv_row 0 1 0 0)])"
    using loop_body_level [where u = 0 and v = 0 and n = 0 and t = "0.05"]
      loop_body_level [where u = "0.05" and v = 0 and n = 1 and t = "0.1"]
    by (simp add: level_state_def)
  have u: "[1..<Suc 2] = [1, 2]" by code_simp
  have l: "logger 1013.25 (Fl 0, Fl 0, Fl 9.80665) 0 ''/logs/log_001.csv''
        (replicate 2 (level_reading 0))
      = Inr (level_state\<lparr>last_t := 0, last_status := 0, line_count := 2\<rparr>,
          [Write header, Print ''Logging to: /logs/log_001.csv'',
           Write (csv_row 0 1 0 0), Write (csv_row 0 1 0 0)])"
    using logger_level [of "''/logs/log_001.csv''" 2] unfolding u by simp
  from baseline_unchecked [THEN conjunct2, THEN conjunct1, rule_format, OF r]
    baseline_unchecked [THEN conjunct2, THEN conjunct2, rule_format, OF l] r l
  show ?thesis by simp
qed

theorem baseline_negative_counterexample:
  "logger (- 1013.25) (Fl 0, Fl 0, Fl 9.80665) 0 ''/logs/log_001.csv''
      [\<lparr>now = 0.05, acceleration = (Fl 0, Fl 0, Fl 9.80665), gyro = (0, 0, 0),
        pressure = - 1013.25\<rparr>] =
     Inr (\<lparr>p0 = - 1013.25, roll = 0, pitch = 0, last_t = 0.05, last_status = 0,
           line_count = 1\<rparr>,
          [Write (''alt_m,accel_g,roll_deg,pitch_deg'' @ [CHR 0x0A]),
           Print ''Logging to: /logs/log_001.csv'',
           Write (''0.00,1.000,0.00,0.00'' @ [CHR 0x0A])])
   \<and> logger 0 (Fl 0, Fl 0, Fl 9.80665) 0 ''/logs/log_001.csv'' [] =
     Inr (\<lparr>p0 = 0, roll = 0, pitch = 0, last_t = 0, last_status = 0, line_count = 0\<rparr>,
          [Write (''alt_m,accel_g,roll_deg,pitch_deg'' @ [CHR 0x0A]),
           Print ''Logging to: /logs/log_001.csv''])"
proof -
  have st: "startup pr (Fl 0, Fl 0, Fl 9.80665) 0 path =
       Inr (\<lparr>p0 = pr, roll = 0, pitch = 0, last_t = 0, last_status = 0, line_count = 0\<rparr>,
            [Write header, Print (''Logging to: '' @ path)])" for pr path
    using startup_level [of "9.80665" pr 0 path] by simp
  have lb: "loop_body \<lparr>p0 = - 1013.25, roll = 0, pitch = 0, last_t = 0, last_status = 0,
                       line_count = 0\<rparr>
        \<lparr>now = 0.05, acceleration = (Fl 0, Fl 0, Fl 9.80665), gyro = (0, 0, 0),
          pressure = - 1013.25\<rparr> =
      Inr (\<lparr>p0 = - 1013.25, roll = 0, pitch = 0, last_t = 0.05, last_status = 0,
            line_count = 1\<rparr>,
           [Write (csv_row 0 1 0 0)])"
    using loop_body_rest [where b = "- 1013.25" and az = "9.80665" and u = 0 and v = 0
        and n = 0 and t = "0.05"]
    by simp
  show ?thesis
    unfolding logger_def st using lb by (simp add: header_def csv_row_level)
qed

section \<open>Claims about one pass of the loop\<close>

text \<open>
  C10. One pass of the loop is a function of the previous \<open>roll\<close>, \<open>pitch\<close>,
  \<open>line_count\<close> and \<open>p0\<close>, of the acceleration, the angular rate and the pressure read,
  and of \<open>dt\<close>: two passes that agree on these write the same line (and flush alike)
  and leave the same \<open>roll\<close>, \<open>pitch\<close> and \<open>line_count\<close>, or fail with the same error,
  whatever the clock and the time of the last status line are.
\<close>

theorem loop_body_deterministic:
  assumes "p0 s1 = p0 s2" "roll s1 = roll s2" "pitch s1 = pitch s2"
    and "line_count s1 = line_count s2"
    and "acceleration r1 = acceleration r2" "gyro r1 = gyro r2" "pressure r1 = pressure r2"
    and "now r1 - last_t s1 = now r2 - last_t s2"
  shows "logged (loop_body s1 r1) = logged (loop_body s2 r2)"
  using assms
  by (simp add: logged_def loop_body_def Let_def split: sum.splits prod.splits)

theorem loop_body_deterministic_witness:
  "logged (loop_body level_state (level_reading 0.05))
     = logged (loop_body (level_state\<lparr>last_t := 100, last_status := 50\<rparr>) (level_reading 100.05))
   \<and> logged (loop_body level_state (level_reading 0.05))
     = Inr ([Write (''0.00,1.000,0.00,0.00'' @ [CHR 0x0A])], 0, 0, 1)
   \<and> loop_body level_state (level_reading 0.05)
     \<noteq> loop_body (level_state\<lparr>last_t := 100, last_status := 50\<rparr>) (level_reading 100.05)"
proof -
  have "logged (loop_body level_state (level_reading 0.05))
     = logged (loop_body (level_state\<lparr>last_t := 100, last_status := 50\<rparr>) (level_reading 100.05))"
    by (rule loop_body_deterministic) (simp_all add: level_state_def level_reading_def)
  moreover have "logged (loop_body level_state (level_reading 0.05))
     = Inr ([Write (''0.00,1.000,0.00,0.00'' @ [CHR 0x0A])], 0, 0, 1)"
    using loop_body_level [where u = 0 and v = 0 and n = 0 and t = "0.05"]
    by (simp add: level_state_def logged_def csv_row_level)
  moreover have "loop_body level_state (level_reading 0.05)
     \<noteq> loop_body (level_state\<lparr>last_t := 100, last_status := 50\<rparr>) (level_reading 100.05)"
    using loop_body_level [where u = 0 and v = 0 and n = 0 and t = "0.05"]
      loop_body_level [where u = 100 and v = 50 and n = 0 and t = "100.05"]
    by (simp add: level_state_def)
  ultimately show ?thesis by simp
qed

end
